theory Spec2Isabelle
  imports Main "HOL-Library.Sublist"
begin

section \<open>Python values\<close>

text \<open>
  The values \<^verbatim>\<open>json.loads\<close> produces. Python's \<^verbatim>\<open>None\<close> is \<open>JNull\<close>; a
  \<^verbatim>\<open>dict\<close> is an association list read with \<open>map_of\<close>. Numbers with a fraction or an
  exponent (Python floats) are left out of the model. Text is a \<open>string\<close>; the characters
  that matter below (\<^verbatim>\<open>$\<close>, \<^verbatim>\<open>/\<close>, \<^verbatim>\<open>:\<close>, \<^verbatim>\<open>.\<close>, the letters of the denylist) are ASCII.
\<close>

datatype json =
    JNull
  | JBool bool
  | JInt int
  | JStr string
  | JArr "json list"
  | JObj "(string \<times> json) list"

datatype error = AttributeError | TypeError | KeyError | OSError

text \<open>\<^verbatim>\<open>d.get(k, default)\<close>\<close>

definition py_get :: "(string \<times> json) list \<Rightarrow> string \<Rightarrow> json \<Rightarrow> json" where
  "py_get d k dflt = (case map_of d k of None \<Rightarrow> dflt | Some v \<Rightarrow> v)"

text \<open>Truth value of an object, as \<^verbatim>\<open>if x\<close> and \<^verbatim>\<open>x and y\<close> test it.\<close>

fun truthy :: "json \<Rightarrow> bool" where
  "truthy JNull = False"
| "truthy (JBool b) = b"
| "truthy (JInt n) = (n \<noteq> 0)"
| "truthy (JStr s) = (s \<noteq> [])"
| "truthy (JArr xs) = (xs \<noteq> [])"
| "truthy (JObj d) = (d \<noteq> [])"

text \<open>
  \<^verbatim>\<open>x in ns\<close> for a list of ints: membership by \<^verbatim>\<open>==\<close>, under which \<^verbatim>\<open>True\<close> equals 1
  and \<^verbatim>\<open>False\<close> equals 0, and no string, list, dict or \<^verbatim>\<open>None\<close> equals an int.
\<close>

fun py_in_ints :: "json \<Rightarrow> int list \<Rightarrow> bool" where
  "py_in_ints (JInt n) ns = (n \<in> set ns)"
| "py_in_ints (JBool b) ns = ((if b then 1 else 0) \<in> set ns)"
| "py_in_ints _ ns = False"

text \<open>
  \<^verbatim>\<open>str.lower\<close>. Only \<^verbatim>\<open>A\<close>..\<^verbatim>\<open>Z\<close> change here; Python also lowers letters beyond ASCII,
  to letters beyond ASCII again, with two exceptions (U+212A to \<^verbatim>\<open>k\<close>, U+0130 to \<^verbatim>\<open>i\<close>
  and a combining dot) that no term searched for below contains.
\<close>

definition lower_char :: "char \<Rightarrow> char" where
  "lower_char c =
     (case map_of (zip ''ABCDEFGHIJKLMNOPQRSTUVWXYZ'' ''abcdefghijklmnopqrstuvwxyz'') c of
        None \<Rightarrow> c
      | Some l \<Rightarrow> l)"

definition lower :: "string \<Rightarrow> string" where
  "lower s = map lower_char s"

text \<open>\<^verbatim>\<open>t in s\<close> for two strings: \<open>t\<close> occurs in \<open>s\<close> as a contiguous substring.\<close>

fun py_in_str :: "string \<Rightarrow> string \<Rightarrow> bool" where
  "py_in_str t [] = (t = [])"
| "py_in_str t (c # s) = (prefix t (c # s) \<or> py_in_str t s)"

section \<open>Configuration\<close>

definition DESIRED_DETECTOR_TYPES :: "int list" where
  "DESIRED_DETECTOR_TYPES =
     [2, 3, 7, 9, 15, 17, 18, 31, 39, 40, 48, 69, 71, 120, 177, 350, 353, 582, 584, 599,
      737, 924]"

definition UNDESIRED_TERMS :: "string list" where
  "UNDESIRED_TERMS = [''example'', ''test'', ''dummy'', ''sample'']"

text \<open>
  The default of \<^verbatim>\<open>Config.OUTPUT_DIR\<close>; the command line overrides it, so the pipeline
  below takes the directory in use from its environment.
\<close>

definition OUTPUT_DIR :: string where
  "OUTPUT_DIR = ''/app/output''"

section \<open>Klepto2.parse_trufflehog_results\<close>

text \<open>
  A line of the detector's output file, by what the first loop does with it: skipped when
  blank, dropped when \<^verbatim>\<open>json.loads\<close> raises \<^verbatim>\<open>JSONDecodeError\<close>, kept otherwise.
\<close>

datatype th_line = Blank | Unparsable | Parsed json

fun read_lines :: "th_line list \<Rightarrow> json list" where
  "read_lines [] = []"
| "read_lines (Blank # ls) = read_lines ls"
| "read_lines (Unparsable # ls) = read_lines ls"
| "read_lines (Parsed v # ls) = v # read_lines ls"

definition project :: "(string \<times> json) list \<Rightarrow> json" where
  "project obj =
     JObj [(''SourceMetadata'', py_get obj ''SourceMetadata'' JNull),
           (''DetectorName'', py_get obj ''DetectorName'' JNull),
           (''DetectorType'', py_get obj ''DetectorType'' JNull),
           (''Raw'', py_get obj ''Raw'' (JStr ''''))]"

text \<open>
  The second loop, over \<^verbatim>\<open>all_data\<close>, with \<^verbatim>\<open>filtered_data\<close> as the accumulator.
  \<^verbatim>\<open>obj.get\<close> on a value that is no dict, and \<^verbatim>\<open>raw.lower()\<close> on a true value that is
  no string, raise \<^verbatim>\<open>AttributeError\<close>, which leaves the function.
\<close>

fun filter_loop :: "json list \<Rightarrow> json list \<Rightarrow> error + json list" where
  "filter_loop [] filtered_data = Inr filtered_data"
| "filter_loop (JObj obj # rest) filtered_data =
     (let raw = py_get obj ''Raw'' (JStr '''');
          detector_type = py_get obj ''DetectorType'' JNull
      in if py_in_ints detector_type DESIRED_DETECTOR_TYPES then
           (if truthy raw then
              (case raw of
                 JStr s \<Rightarrow>
                   if list_ex (\<lambda>term. py_in_str term (lower s)) UNDESIRED_TERMS
                   then filter_loop rest filtered_data
                   else filter_loop rest (filtered_data @ [project obj])
               | _ \<Rightarrow> Inl AttributeError)
            else filter_loop rest (filtered_data @ [project obj]))
         else filter_loop rest filtered_data)"
| "filter_loop (_ # rest) filtered_data = Inl AttributeError"

text \<open>The argument is \<open>None\<close> when the input file does not exist.\<close>

definition parse_trufflehog_results :: "th_line list option \<Rightarrow> error + json list" where
  "parse_trufflehog_results input_file =
     (case input_file of
        None \<Rightarrow> Inr []
      | Some ls \<Rightarrow> filter_loop (read_lines ls) [])"

subsection \<open>The filter as the specification words it\<close>

text \<open>
  A detector record is a dict whose \<^verbatim>\<open>Raw\<close> entry, when there is one, is text.
\<close>

definition th_record :: "json \<Rightarrow> bool" where
  "th_record v =
     (case v of
        JObj obj \<Rightarrow> (case map_of obj ''Raw'' of None \<Rightarrow> True | Some (JStr s) \<Rightarrow> True | Some _ \<Rightarrow> False)
      | _ \<Rightarrow> False)"

definition detector_type :: "json \<Rightarrow> json" where
  "detector_type v = (case v of JObj obj \<Rightarrow> py_get obj ''DetectorType'' JNull | _ \<Rightarrow> JNull)"

definition raw_text :: "json \<Rightarrow> string" where
  "raw_text v =
     (case v of
        JObj obj \<Rightarrow> (case map_of obj ''Raw'' of Some (JStr s) \<Rightarrow> s | _ \<Rightarrow> [])
      | _ \<Rightarrow> [])"

definition spec_retained :: "json \<Rightarrow> bool" where
  "spec_retained v \<longleftrightarrow>
     (\<exists>n \<in> set DESIRED_DETECTOR_TYPES. detector_type v = JInt n) \<and>
     \<not> (\<exists>t \<in> set UNDESIRED_TERMS. sublist t (lower (raw_text v)))"

definition projected :: "json \<Rightarrow> json" where
  "projected v = (case v of JObj obj \<Rightarrow> project obj | _ \<Rightarrow> JNull)"

section \<open>Strings and paths\<close>

text \<open>\<^verbatim>\<open>s.split(sep)\<close> for a one-character separator: never empty, one more piece than separators.\<close>

fun py_split :: "char \<Rightarrow> string \<Rightarrow> string list" where
  "py_split sep [] = [[]]"
| "py_split sep (c # s) =
     (if c = sep then [] # py_split sep s
      else (case py_split sep s of [] \<Rightarrow> [[c]] | w # ws \<Rightarrow> (c # w) # ws))"

text \<open>
  \<^verbatim>\<open>s.replace(old, new)\<close> for a non-empty \<open>old\<close>: every occurrence, left to right, without
  overlap. (The source calls it with \<^verbatim>\<open>"sha256:"\<close>, \<^verbatim>\<open>"/"\<close> and \<^verbatim>\<open>":"\<close> only; for an
  empty \<open>old\<close> the model returns \<open>s\<close>.)
\<close>

function py_replace :: "string \<Rightarrow> string \<Rightarrow> string \<Rightarrow> string" where
  "py_replace old new s =
     (if old = [] \<or> s = [] then s
      else if prefix old s then new @ py_replace old new (drop (length old) s)
      else hd s # py_replace old new (tl s))"
  by pat_completeness auto
termination
  by (relation "measure (\<lambda>(old, new, s). length s)") auto

declare py_replace.simps [simp del]

text \<open>
  \<^verbatim>\<open>os.path.join(a, b)\<close> on POSIX: an absolute \<open>b\<close> replaces \<open>a\<close>; otherwise one \<^verbatim>\<open>/\<close> goes
  between them unless \<open>a\<close> is empty or ends in one.
\<close>

definition os_path_join :: "string \<Rightarrow> string \<Rightarrow> string" where
  "os_path_join a b =
     (if b \<noteq> [] \<and> hd b = CHR ''/'' then b
      else if a = [] \<or> last a = CHR ''/'' then a @ b
      else a @ ''/'' @ b)"

text \<open>
  \<^verbatim>\<open>str.splitlines\<close>: a line ends at LF, VT, FF, CR (CR LF counts once), FS, GS, RS or NEL,
  and the text after the last line end is a line when it is not empty. (U+2028 and U+2029
  also end a line in Python; they are beyond the characters of \<open>string\<close>.)
\<close>

definition line_end :: "char \<Rightarrow> bool" where
  "line_end c \<longleftrightarrow> c \<in> set [CHR 0x0A, CHR 0x0B, CHR 0x0C, CHR 0x0D, CHR 0x1C, CHR 0x1D, CHR 0x1E, CHR 0x85]"

fun splitlines_from :: "string \<Rightarrow> string \<Rightarrow> string list" where
  "splitlines_from cur [] = (if cur = [] then [] else [cur])"
| "splitlines_from cur [c] =
     (if line_end c then [cur] else [cur @ [c]])"
| "splitlines_from cur (c # d # s) =
     (if c = CHR 0x0D \<and> d = CHR 0x0A then cur # splitlines_from [] s
      else if line_end c then cur # splitlines_from [] (d # s)
      else splitlines_from (cur @ [c]) (d # s))"

definition splitlines :: "string \<Rightarrow> string list" where
  "splitlines s = splitlines_from [] s"

section \<open>The file system, as the scanner and the extractor read it\<close>

text \<open>
  What the source asks of the file system: \<^verbatim>\<open>os.path.exists\<close>, \<^verbatim>\<open>os.listdir\<close>,
  \<^verbatim>\<open>os.walk\<close> (a list of \<^verbatim>\<open>(root, dirs, files)\<close>), reading a text file (\<open>None\<close> when
  \<^verbatim>\<open>open\<close> or \<^verbatim>\<open>read\<close> raises) and \<^verbatim>\<open>json.load\<close> of a file (\<open>None\<close> when it raises).
\<close>

record filesystem =
  path_exists :: "string \<Rightarrow> bool"
  listdir :: "string \<Rightarrow> string list"
  walk :: "string \<Rightarrow> (string \<times> string list \<times> string list) list"
  read_text :: "string \<Rightarrow> string option"
  load_json :: "string \<Rightarrow> json option"

section \<open>fnmatch\<close>

text \<open>
  \<^verbatim>\<open>fnmatch.translate\<close>: \<^verbatim>\<open>*\<close> is any text, \<^verbatim>\<open>?\<close> any character, \<^verbatim>\<open>[seq]\<close> a character of
  \<open>seq\<close> (\<^verbatim>\<open>[!seq]\<close> one not of it), and a \<^verbatim>\<open>[\<close> that no \<^verbatim>\<open>]\<close> closes is itself.
\<close>

datatype glob_token = Star | Any_char | Literal char | Char_class bool string

text \<open>
  The text after a \<^verbatim>\<open>[\<close>: whether the class is negated, its characters, and the pattern
  after the closing \<^verbatim>\<open>]\<close>; \<open>None\<close> when nothing closes it. A \<^verbatim>\<open>]\<close> that comes first
  (after the \<^verbatim>\<open>!\<close>, if any) belongs to the class.
\<close>

fun class_body :: "string \<Rightarrow> (string \<times> string) option" where
  "class_body [] = None"
| "class_body (x # xs) =
     (if x = CHR '']'' then Some ([], xs)
      else (case class_body xs of None \<Rightarrow> None | Some (stuff, rest) \<Rightarrow> Some (x # stuff, rest)))"

definition bracket :: "string \<Rightarrow> (bool \<times> string \<times> string) option" where
  "bracket pat =
     (let negated = (case pat of [] \<Rightarrow> False | x # _ \<Rightarrow> x = CHR ''!'');
          j1 = (if negated then tl pat else pat);
          lead = (case j1 of [] \<Rightarrow> False | x # _ \<Rightarrow> x = CHR '']'');
          j2 = (if lead then tl j1 else j1)
      in case class_body j2 of
           None \<Rightarrow> None
         | Some (stuff, rest) \<Rightarrow> Some (negated, (if lead then '']'' else []) @ stuff, rest))"

lemma class_body_shorter: "class_body xs = Some (stuff, rest) \<Longrightarrow> length rest < length xs"
  by (induction xs arbitrary: stuff rest) (auto split: if_splits option.splits)

lemma bracket_shorter:
  assumes "bracket pat = Some (negated, stuff, rest)"
  shows "length rest \<le> length pat"
proof -
  define j1 where "j1 = (if (case pat of [] \<Rightarrow> False | x # _ \<Rightarrow> x = CHR ''!'') then tl pat else pat)"
  define j2 where "j2 = (if (case j1 of [] \<Rightarrow> False | x # _ \<Rightarrow> x = CHR '']'') then tl j1 else j1)"
  have a: "length j1 \<le> length pat" by (simp add: j1_def)
  have b: "length j2 \<le> length j1" by (simp add: j2_def)
  from assms obtain s where "class_body j2 = Some (s, rest)"
    unfolding bracket_def Let_def j1_def [symmetric] j2_def [symmetric]
    by (cases "class_body j2") auto
  from class_body_shorter [OF this] a b show ?thesis by simp
qed

function translate :: "string \<Rightarrow> glob_token list" where
  "translate [] = []"
| "translate (c # pat) =
     (if c = CHR ''*'' then Star # translate pat
      else if c = CHR ''?'' then Any_char # translate pat
      else if c = CHR ''['' then
        (case bracket pat of
           None \<Rightarrow> Literal c # translate pat
         | Some (negated, stuff, rest) \<Rightarrow> Char_class negated stuff # translate rest)
      else Literal c # translate pat)"
  by pat_completeness auto
termination
proof (relation "measure length")
  fix c :: char and pat x2 x y xa ya
  assume "bracket pat = Some x2" and "(x, y) = x2" and "(xa, ya) = y"
  then have "bracket pat = Some (x, xa, ya)" by simp
  from bracket_shorter [OF this] show "(ya, c # pat) \<in> measure length" by simp
qed simp_all

text \<open>Membership in a class: \<^verbatim>\<open>a-b\<close> is the range from \<open>a\<close> to \<open>b\<close>.\<close>

fun in_class :: "string \<Rightarrow> char \<Rightarrow> bool" where
  "in_class (a # m # b # stuff) c =
     (if m = CHR ''-'' then ((of_char a :: nat) \<le> of_char c \<and> (of_char c :: nat) \<le> of_char b) \<or> in_class stuff c
      else a = c \<or> in_class (m # b # stuff) c)"
| "in_class (a # stuff) c = (a = c \<or> in_class stuff c)"
| "in_class [] c = False"

fun glob_match :: "glob_token list \<Rightarrow> string \<Rightarrow> bool" where
  "glob_match [] s = (s = [])"
| "glob_match (Star # ts) [] = glob_match ts []"
| "glob_match (Star # ts) (c # s) = (glob_match ts (c # s) \<or> glob_match (Star # ts) s)"
| "glob_match (Any_char # ts) [] = False"
| "glob_match (Any_char # ts) (c # s) = glob_match ts s"
| "glob_match (Literal l # ts) [] = False"
| "glob_match (Literal l # ts) (c # s) = (l = c \<and> glob_match ts s)"
| "glob_match (Char_class negated stuff # ts) [] = False"
| "glob_match (Char_class negated stuff # ts) (c # s) =
     ((in_class stuff c \<noteq> negated) \<and> glob_match ts s)"

definition fnmatch :: "string \<Rightarrow> string \<Rightarrow> bool" where
  "fnmatch name pat = glob_match (translate pat) name"

section \<open>Config.SENSITIVE_FILES\<close>

text \<open>Each rule: name, pattern, action.\<close>

definition SENSITIVE_FILES :: "(string \<times> string \<times> string) list" where
  "SENSITIVE_FILES =
     [(''SHADOW'', ''shadow'', ''shadow''),
      (''SSH KEY'', ''*id_[rd]sa'', ''exist''),
      (''GIT CONFIG'', ''.git/config'', ''cat''),
      (''HTPASSWD'', ''.htpasswd'', ''cat''),
      (''NPMRC'', ''.npmrc'', ''cat''),
      (''DOCKERCFG'', ''.dockercfg'', ''cat''),
      (''PPK'', ''*.ppk'', ''cat''),
      (''.CREDENTIALS'', ''.credentials'', ''cat''),
      (''CREDENTIALS (AWS)'', ''credentials'', ''cat''),
      (''.S3CFG'', ''.s3cfg'', ''cat''),
      (''WP-CONFIG.PHP'', ''wp-config.php'', ''cat''),
      (''.ENV'', ''.env'', ''cat''),
      (''.GIT-CREDENTIALS'', ''.git-credentials'', ''cat''),
      (''.BASH_HISTORY'', ''.bash_history'', ''cat''),
      (''.NETRC'', ''.netrc'', ''cat''),
      (''FILEZILLA.XML'', ''filezilla.xml'', ''cat''),
      (''RECENTSERVERS.XML'', ''recentservers.xml'', ''cat''),
      (''CONFIG.JSON'', ''config.json'', ''cat''),
      (''.PGPASS'', ''.pgpass'', ''cat'')]"

section \<open>FileScanner\<close>

text \<open>
  The scanner's state is its list of findings; each method below returns the findings it
  adds, in the order \<^verbatim>\<open>add_finding\<close> appends them.
\<close>

definition match_pattern :: "string \<Rightarrow> string \<Rightarrow> bool" where
  "match_pattern filename pattern = fnmatch (lower filename) (lower pattern)"

text \<open>
  \<^verbatim>\<open>_check_shadow\<close>: nothing when the file cannot be read or holds no \<^verbatim>\<open>$\<close>; otherwise
  the summary finding, then one finding for each line that holds a \<^verbatim>\<open>$\<close>.
\<close>

definition check_shadow :: "filesystem \<Rightarrow> string \<Rightarrow> string list" where
  "check_shadow fs filepath =
     (case read_text fs filepath of
        None \<Rightarrow> []
      | Some content \<Rightarrow>
          if CHR ''$'' \<in> set content then
            (''Found SHADOW file: '' @ filepath) #
            map (\<lambda>line. ''Shadow content: '' @ line)
              (filter (\<lambda>line. CHR ''$'' \<in> set line) (splitlines content))
          else [])"

definition cat_file :: "filesystem \<Rightarrow> string \<Rightarrow> string list" where
  "cat_file fs filepath =
     (''Found sensitive file: '' @ filepath) #
     (case read_text fs filepath of
        None \<Rightarrow> []
      | Some content \<Rightarrow> [''Content of '' @ filepath @ '':'' @ [CHR 0x0A] @ content])"

text \<open>One rule of \<^verbatim>\<open>scan\<close>, over one \<^verbatim>\<open>(root, dirs, files)\<close> of the walk.\<close>

definition scan_git_config :: "filesystem \<Rightarrow> string \<times> string list \<times> string list \<Rightarrow> string list" where
  "scan_git_config fs entry =
     (case entry of (root, dirs, files) \<Rightarrow>
        if ''.git'' \<in> set dirs then
          (let git_dir = os_path_join root ''.git'';
               config_file = os_path_join git_dir ''config''
           in if path_exists fs config_file
              then (''Found GIT CONFIG: '' @ git_dir) # cat_file fs config_file
              else [])
        else [])"

definition scan_file :: "filesystem \<Rightarrow> string \<times> string \<times> string \<Rightarrow> string \<Rightarrow> string \<Rightarrow> string list" where
  "scan_file fs check root filename =
     (case check of (title, pattern, action_type) \<Rightarrow>
        if match_pattern filename pattern then
          (let filepath = os_path_join root filename
           in if action_type = ''shadow'' then check_shadow fs filepath
              else if action_type = ''cat'' then cat_file fs filepath
              else [''Found '' @ title @ '': '' @ filepath])
        else [])"

definition scan_check :: "filesystem \<Rightarrow> string \<Rightarrow> string \<times> string \<times> string \<Rightarrow> string list" where
  "scan_check fs directory check =
     (case check of (title, pattern, action_type) \<Rightarrow>
        if pattern = ''.git/config''
        then concat (map (scan_git_config fs) (walk fs directory))
        else concat (map (\<lambda>(root, dirs, files). concat (map (scan_file fs check root) files))
                       (walk fs directory)))"

definition scan :: "filesystem \<Rightarrow> string \<Rightarrow> string list" where
  "scan fs directory = concat (map (scan_check fs directory) SENSITIVE_FILES)"

section \<open>Klepto2.extract_image\<close>

text \<open>
  The loop over the manifest's layers. An exception inside the \<^verbatim>\<open>try\<close> (a layer that is no
  dict, a digest that is no string) ends the loop and keeps what was appended so far.
\<close>

fun layers_loop :: "filesystem \<Rightarrow> string \<Rightarrow> json list \<Rightarrow> string list \<Rightarrow> string list" where
  "layers_loop fs image_dir [] files_to_extract = files_to_extract"
| "layers_loop fs image_dir (JObj layer # layers) files_to_extract =
     (case py_get layer ''digest'' (JStr '''') of
        JStr digest \<Rightarrow>
          (let clean_digest = py_replace ''sha256:'' '''' digest
           in if path_exists fs (os_path_join image_dir clean_digest)
              then layers_loop fs image_dir layers (files_to_extract @ [clean_digest])
              else if path_exists fs (os_path_join image_dir digest)
              then layers_loop fs image_dir layers (files_to_extract @ [digest])
              else layers_loop fs image_dir layers files_to_extract)
      | _ \<Rightarrow> files_to_extract)"
| "layers_loop fs image_dir (_ # layers) files_to_extract = files_to_extract"

text \<open>
  What the manifest yields. \<^verbatim>\<open>manifest.get\<close> on a value that is no dict raises; a
  \<^verbatim>\<open>layers\<close> value that is no list either cannot be iterated or yields strings, on which
  \<^verbatim>\<open>layer.get\<close> raises: nothing is appended in either case.
\<close>

definition manifest_files :: "filesystem \<Rightarrow> string \<Rightarrow> string list" where
  "manifest_files fs image_dir =
     (let manifest_path = os_path_join image_dir ''manifest.json''
      in if path_exists fs manifest_path then
           (case load_json fs manifest_path of
              Some (JObj manifest) \<Rightarrow>
                (case py_get manifest ''layers'' (JArr []) of
                   JArr layers \<Rightarrow> layers_loop fs image_dir layers []
                 | _ \<Rightarrow> [])
            | _ \<Rightarrow> [])
         else [])"

definition files_to_extract :: "filesystem \<Rightarrow> string \<Rightarrow> string list" where
  "files_to_extract fs image_dir =
     (let files = manifest_files fs image_dir
      in if files = []
         then filter (\<lambda>f. f \<notin> set [''manifest.json'', ''version'']) (listdir fs image_dir)
         else files)"

text \<open>
  \<^verbatim>\<open>extract_image\<close> runs \<^verbatim>\<open>tar -xf filepath -C extract_root\<close> on each file in turn; a
  failing \<^verbatim>\<open>tar\<close> is ignored (\<^verbatim>\<open>check=False\<close>) and an exception is logged inside the loop,
  so every file is tried. The result is the list of archives \<^verbatim>\<open>tar\<close> was run on.
\<close>

definition extract_image :: "filesystem \<Rightarrow> string \<Rightarrow> string \<Rightarrow> string list" where
  "extract_image fs image_dir extract_root =
     map (os_path_join image_dir) (files_to_extract fs image_dir)"

section \<open>HubClient\<close>

text \<open>
  The answer to \<^verbatim>\<open>GET /repositories/<repo>/tags\<close>, by what \<^verbatim>\<open>get_best_tag\<close> does with it:
  anything that raises inside its \<^verbatim>\<open>try\<close> (no connection, an error status other than 404,
  a body that is not of the expected shape), status 404, or the names of the tags listed
  under \<^verbatim>\<open>results\<close>.
\<close>

datatype tags_reply = Raises | Not_found | Results "string list"

record env =
  tags_reply :: "string \<Rightarrow> tags_reply"
  search_reply :: "string \<Rightarrow> string list option"
  inspect_reply :: "string \<Rightarrow> json option"
  pull_reply :: "string \<Rightarrow> string \<Rightarrow> filesystem option"
  tar_reply :: "filesystem \<Rightarrow> string list \<Rightarrow> string \<Rightarrow> filesystem"
  trufflehog_reply :: "filesystem \<Rightarrow> string \<Rightarrow> th_line list option"
  gitleaks_reply :: "filesystem \<Rightarrow> string \<Rightarrow> json option option"
  mkdtemp :: "string \<Rightarrow> string"
  date :: "string"
  write_ok :: "string \<Rightarrow> bool"
  output_dir :: "string"

text \<open>\<^verbatim>\<open>HubClient.search\<close>: the repository names, or nothing when the request fails.\<close>

definition search :: "env \<Rightarrow> string \<Rightarrow> string list" where
  "search e term = (case search_reply e term of None \<Rightarrow> [] | Some found \<Rightarrow> found)"

definition get_best_tag :: "env \<Rightarrow> string \<Rightarrow> string option" where
  "get_best_tag e repo_name =
     (let repo_name = (if CHR ''/'' \<notin> set repo_name then ''library/'' @ repo_name else repo_name)
      in case tags_reply e repo_name of
           Raises \<Rightarrow> None
         | Not_found \<Rightarrow> None
         | Results results \<Rightarrow>
             (case results of
                [] \<Rightarrow> None
              | first # _ \<Rightarrow> if ''latest'' \<in> set results then Some ''latest'' else Some first))"

section \<open>Klepto2.process_image\<close>

text \<open>
  The world outside one call: the calls made so far, in order, and the files under the
  output directory. Pipelines of different images share nothing else.
\<close>

datatype event =
    Search string
  | Submit string
  | Get_best_tag string
  | Inspect_image string
  | Pull_image string string
  | Extract_image "string list"
  | Scan string
  | Run_trufflehog string
  | Parse_trufflehog_results
  | Run_gitleaks string
  | Write_file string
  | Log_exception string error

record world =
  events :: "event list"
  files :: "string \<rightharpoonup> json"

definition emit :: "event list \<Rightarrow> world \<Rightarrow> world" where
  "emit evs w = w\<lparr>events := events w @ evs\<rparr>"

text \<open>\<^verbatim>\<open>len(term.split("/")) > 1 and "." in term.split("/")[0]\<close>\<close>

definition registry_qualified :: "string \<Rightarrow> bool" where
  "registry_qualified name \<longleftrightarrow>
     length (py_split CHR ''/'' name) > 1 \<and> CHR ''.'' \<in> set (hd (py_split CHR ''/'' name))"

text \<open>The first block of \<^verbatim>\<open>process_image\<close>: the image name with its tag, and the lookup made.\<close>

definition resolve_tag :: "env \<Rightarrow> string \<Rightarrow> string \<times> event list" where
  "resolve_tag e image_name =
     (if CHR '':'' \<notin> set image_name then
        (if registry_qualified image_name then (image_name @ '':latest'', [])
         else (case get_best_tag e image_name of
                 Some tag \<Rightarrow>
                   if tag \<noteq> [] then (image_name @ '':'' @ tag, [Get_best_tag image_name])
                   else (image_name @ '':latest'', [Get_best_tag image_name])
               | None \<Rightarrow> (image_name @ '':latest'', [Get_best_tag image_name])))
      else (image_name, []))"

text \<open>\<^verbatim>\<open>len(x)\<close>: a \<^verbatim>\<open>TypeError\<close> on \<^verbatim>\<open>None\<close>, a bool or an int.\<close>

fun py_len :: "json \<Rightarrow> error + int" where
  "py_len (JStr s) = Inr (int (length s))"
| "py_len (JArr xs) = Inr (int (length xs))"
| "py_len (JObj d) = Inr (int (length (remdups (map fst d))))"
| "py_len _ = Inl TypeError"

text \<open>The metadata block: \<open>None\<close> is a failed inspection, which leaves \<^verbatim>\<open>image_info\<close> empty.\<close>

definition image_info :: "json option \<Rightarrow> error + json" where
  "image_info metadata =
     (case metadata of
        None \<Rightarrow> Inr (JObj [])
      | Some m \<Rightarrow>
          if truthy m then
            (case m of
               JObj md \<Rightarrow>
                 (case py_len (py_get md ''Layers'' (JArr [])) of
                    Inl err \<Rightarrow> Inl err
                  | Inr layers_count \<Rightarrow>
                      Inr (JObj [(''Created'', py_get md ''Created'' (JStr ''Unknown'')),
                                 (''Architecture'', py_get md ''Architecture'' (JStr ''Unknown'')),
                                 (''Os'', py_get md ''Os'' (JStr ''Unknown'')),
                                 (''LayersCount'', JInt layers_count),
                                 (''Env'', py_get md ''Env'' (JArr [])),
                                 (''Labels'', py_get md ''Labels'' (JObj []))]))
             | _ \<Rightarrow> Inl AttributeError)
          else Inr (JObj []))"

definition safe_name :: "string \<Rightarrow> string" where
  "safe_name image_name = py_replace '':'' ''_'' (py_replace ''/'' ''_'' image_name)"

definition output_file :: "env \<Rightarrow> string \<Rightarrow> string" where
  "output_file e image_name =
     os_path_join (output_dir e) (''results_'' @ safe_name image_name @ ''.json'')"

text \<open>
  The stages after a successful pull, on the pulled directory \<open>fs\<close>. A failing write is
  \<^verbatim>\<open>open(output_file, "w")\<close> raising \<^verbatim>\<open>OSError\<close>; nothing in \<^verbatim>\<open>process_image\<close> catches it.
\<close>

definition scan_and_persist ::
  "env \<Rightarrow> string \<Rightarrow> json \<Rightarrow> string \<Rightarrow> filesystem \<Rightarrow> world \<Rightarrow> (error + string option) \<times> world" where
  "scan_and_persist e image_name info temp_dir fs w =
     (let image_dir = os_path_join temp_dir ''image_data'';
          extract_dir = os_path_join temp_dir ''extracted'';
          archives = extract_image fs image_dir extract_dir;
          tree = tar_reply e fs archives extract_dir;
          file_findings = scan tree extract_dir;
          w1 = emit [Extract_image archives, Scan extract_dir, Run_trufflehog extract_dir,
                     Parse_trufflehog_results] w
      in case parse_trufflehog_results (trufflehog_reply e tree extract_dir) of
           Inl err \<Rightarrow> (Inl err, w1)
         | Inr trufflehog_findings \<Rightarrow>
             (let gitleaks_findings =
                    (case gitleaks_reply e tree extract_dir of
                       Some (Some v) \<Rightarrow> v
                     | _ \<Rightarrow> JArr []);
                  final_result =
                    JObj [(''image'', JStr image_name),
                          (''scan_timestamp'', JStr (date e)),
                          (''image_metadata'', info),
                          (''file_findings'', JArr (map JStr file_findings)),
                          (''trufflehog_findings'', JArr trufflehog_findings),
                          (''gitleaks_findings'', gitleaks_findings)];
                  w2 = emit [Run_gitleaks extract_dir, Write_file (output_file e image_name)] w1
              in if write_ok e (output_file e image_name)
                 then (Inr (Some (output_file e image_name)),
                       w2\<lparr>files := (files w2)(output_file e image_name \<mapsto> final_result)\<rparr>)
                 else (Inl OSError, w2)))"

definition process_image :: "env \<Rightarrow> string \<Rightarrow> world \<Rightarrow> (error + string option) \<times> world" where
  "process_image e image_name0 w =
     (let (image_name, lookup) = resolve_tag e image_name0;
          w1 = emit (lookup @ [Inspect_image image_name]) w
      in case image_info (inspect_reply e image_name) of
           Inl err \<Rightarrow> (Inl err, w1)
         | Inr info \<Rightarrow>
             (let temp_dir = mkdtemp e image_name;
                  image_dir = os_path_join temp_dir ''image_data'';
                  w2 = emit [Pull_image image_name image_dir] w1
              in case pull_reply e image_name image_dir of
                   None \<Rightarrow> (Inr None, w2)
                 | Some fs \<Rightarrow> scan_and_persist e image_name info temp_dir fs w2))"

section \<open>Klepto2.run\<close>

definition is_image :: "string \<Rightarrow> bool" where
  "is_image term \<longleftrightarrow> CHR '':'' \<in> set term \<or> registry_qualified term"

text \<open>The names gathered from the inputs under a mode, before duplicates go.\<close>

definition gather :: "env \<Rightarrow> string list \<Rightarrow> string \<Rightarrow> string list" where
  "gather e inputs mode =
     (if mode = ''search'' then concat (map (search e) inputs)
      else if mode = ''image'' then inputs
      else if mode = ''mixed''
      then concat (map (\<lambda>term. if is_image term then [term] else search e term) inputs)
      else [])"

definition searches :: "string list \<Rightarrow> string \<Rightarrow> event list" where
  "searches inputs mode =
     (if mode = ''search'' then map Search inputs
      else if mode = ''mixed'' then map Search (filter (\<lambda>term. \<not> is_image term) inputs)
      else [])"

text \<open>
  \<^verbatim>\<open>list(set(image_names))\<close>: each name once. Python fixes no order for it, and the pool
  runs the tasks concurrently; the model takes the names in one order, one task after
  another.
\<close>

definition image_names :: "env \<Rightarrow> string list \<Rightarrow> string \<Rightarrow> string list" where
  "image_names e inputs mode = remdups (gather e inputs mode)"

fun run_tasks :: "env \<Rightarrow> string list \<Rightarrow> world \<Rightarrow> world" where
  "run_tasks e [] w = w"
| "run_tasks e (img # imgs) w =
     (case process_image e img (emit [Submit img] w) of
        (Inl exc, w') \<Rightarrow> run_tasks e imgs (emit [Log_exception img exc] w')
      | (Inr path, w') \<Rightarrow> run_tasks e imgs w')"

definition run :: "env \<Rightarrow> string list \<Rightarrow> string \<Rightarrow> world \<Rightarrow> world" where
  "run e inputs mode w =
     run_tasks e (image_names e inputs mode) (emit (searches inputs mode) w)"

section \<open>Observations on a run\<close>

text \<open>The images handed to the pool, in the order of submission.\<close>

definition submitted :: "event list \<Rightarrow> string list" where
  "submitted evs = concat (map (\<lambda>ev. case ev of Submit img \<Rightarrow> [img] | _ \<Rightarrow> []) evs)"

text \<open>The world before anything has run.\<close>

definition empty_world :: world where
  "empty_world = \<lparr>events = [], files = Map.empty\<rparr>"

text \<open>
  The image references whose pipeline has started: \<^verbatim>\<open>process_image\<close> inspects the
  reference it has resolved before it does anything else with it.
\<close>

definition inspected :: "event list \<Rightarrow> string list" where
  "inspected evs = concat (map (\<lambda>ev. case ev of Inspect_image name \<Rightarrow> [name] | _ \<Rightarrow> []) evs)"

text \<open>The stages of \<^verbatim>\<open>process_image\<close> that come after the pull.\<close>

fun later_stage :: "event \<Rightarrow> bool" where
  "later_stage (Extract_image archives) = True"
| "later_stage (Scan directory) = True"
| "later_stage (Run_trufflehog directory) = True"
| "later_stage Parse_trufflehog_results = True"
| "later_stage (Run_gitleaks directory) = True"
| "later_stage (Write_file path) = True"
| "later_stage _ = False"

section \<open>A sample environment\<close>

text \<open>
  A registry with the repository \<^verbatim>\<open>library/myrepo\<close> tagged \<^verbatim>\<open>v2\<close> and \<^verbatim>\<open>v1\<close>, a search
  that knows three terms, an image \<^verbatim>\<open>broken:1\<close> that cannot be pulled, and pulled
  directories that hold nothing.
\<close>

definition sample_fs :: filesystem where
  "sample_fs =
     \<lparr>path_exists = (\<lambda>p. False), listdir = (\<lambda>d. []), walk = (\<lambda>d. []),
      read_text = (\<lambda>p. None), load_json = (\<lambda>p. None)\<rparr>"

definition sample_env :: env where
  "sample_env =
     \<lparr>tags_reply = (\<lambda>repo. if repo = ''library/myrepo'' then Results [''v2'', ''v1'']
                              else Not_found),
      search_reply = (\<lambda>term. if term = ''nginx'' then Some [''library/nginx'']
                               else if term = ''web'' then Some [''library/nginx'', ''acme/web'']
                               else if term = ''node.js'' then Some [''library/node'']
                               else None),
      inspect_reply = (\<lambda>name. None),
      pull_reply = (\<lambda>name image_dir. if name = ''broken:1'' then None else Some sample_fs),
      tar_reply = (\<lambda>fs archives extract_root. fs),
      trufflehog_reply = (\<lambda>fs directory. None),
      gitleaks_reply = (\<lambda>fs directory. None),
      mkdtemp = (\<lambda>name. ''/tmp/tmp0''),
      date = ''2024-01-01T00:00:00Z'',
      write_ok = (\<lambda>path. True),
      output_dir = OUTPUT_DIR\<rparr>"

section \<open>Properties of the finding filter\<close>

lemma py_in_str_sublist: "py_in_str t s \<longleftrightarrow> sublist t s"
  by (induction s) (auto simp: sublist_Cons_right)

lemma py_in_ints_desired:
  "py_in_ints v DESIRED_DETECTOR_TYPES \<longleftrightarrow> (\<exists>n \<in> set DESIRED_DETECTOR_TYPES. v = JInt n)"
  by (cases v) (auto simp: DESIRED_DETECTOR_TYPES_def)

lemma filter_loop_acc:
  "\<forall>v \<in> set objs. th_record v \<Longrightarrow>
   filter_loop objs acc = Inr (acc @ map projected (filter spec_retained objs))"
proof (induction objs arbitrary: acc)
  case Nil
  then show ?case by simp
next
  case (Cons v objs)
  from Cons.prems obtain obj where v: "v = JObj obj"
    by (auto simp: th_record_def split: json.splits)
  from Cons.prems have rest: "\<forall>v \<in> set objs. th_record v" by simp
  note IH = Cons.IH [OF rest]
  from Cons.prems v have raw: "map_of obj ''Raw'' = None \<or> (\<exists>s. map_of obj ''Raw'' = Some (JStr s))"
    by (auto simp: th_record_def split: option.splits json.splits)
  show ?case
    using raw
    by (auto simp: v IH Let_def py_get_def py_in_ints_desired spec_retained_def detector_type_def
        raw_text_def projected_def list_ex_iff py_in_str_sublist lower_def UNDESIRED_TERMS_def)
qed


lemma read_lines_append: "read_lines (xs @ ys) = read_lines xs @ read_lines ys"
  by (induction xs rule: read_lines.induct) simp_all

lemma filter_loop_append:
  "filter_loop (xs @ ys) acc =
     (case filter_loop xs acc of Inl e \<Rightarrow> Inl e | Inr acc' \<Rightarrow> filter_loop ys acc')"
  by (induction xs acc rule: filter_loop.induct) (simp_all add: Let_def split: json.splits)

lemma filter_loop_extends: "filter_loop xs acc = Inr out \<Longrightarrow> set acc \<subseteq> set out"
  by (induction xs acc rule: filter_loop.induct)
    (auto simp: Let_def split: if_splits json.splits)

lemma filter_loop_empty_raw:
  assumes "py_in_ints (py_get obj ''DetectorType'' JNull) DESIRED_DETECTOR_TYPES"
    and "map_of obj ''Raw'' = None \<or> map_of obj ''Raw'' = Some (JStr [])"
  shows "filter_loop (JObj obj # rest) acc = filter_loop rest (acc @ [project obj])"
  using assms by (auto simp: Let_def py_get_def)

text \<open>
  C1. On detector records the filter returns, in input order, the projections of exactly
  the records whose \<^verbatim>\<open>DetectorType\<close> is one of the 22 allow-listed codes and whose raw
  text, lowered, contains none of the four denylist terms. The allow-listed record with raw
  text \<^verbatim>\<open>AKIA_real_key_value\<close> is kept, the one with \<^verbatim>\<open>test-AKIA-example\<close> is dropped,
  and a record of type 9999 is dropped whatever else it holds.
\<close>

theorem filter_retains_iff:
  "(\<forall>ls. (\<forall>v \<in> set (read_lines ls). th_record v) \<longrightarrow>
      parse_trufflehog_results (Some ls) =
        Inr (map projected (filter spec_retained (read_lines ls)))) \<and>
   length DESIRED_DETECTOR_TYPES = 22 \<and>
   parse_trufflehog_results
     (Some [Parsed (JObj [(''DetectorType'', JInt 2), (''Raw'', JStr ''AKIA_real_key_value'')])]) =
     Inr [JObj [(''SourceMetadata'', JNull), (''DetectorName'', JNull),
                (''DetectorType'', JInt 2), (''Raw'', JStr ''AKIA_real_key_value'')]] \<and>
   parse_trufflehog_results
     (Some [Parsed (JObj [(''DetectorType'', JInt 2), (''Raw'', JStr ''test-AKIA-example'')])]) =
     Inr [] \<and>
   (\<forall>obj. map_of obj ''DetectorType'' = Some (JInt 9999) \<longrightarrow>
      parse_trufflehog_results (Some [Parsed (JObj obj)]) = Inr [])"
proof (intro conjI allI impI)
  fix ls
  assume "\<forall>v \<in> set (read_lines ls). th_record v"
  then show "parse_trufflehog_results (Some ls) =
        Inr (map projected (filter spec_retained (read_lines ls)))"
    using filter_loop_acc [of "read_lines ls" "[]"] by (simp add: parse_trufflehog_results_def)
next
  show "length DESIRED_DETECTOR_TYPES = 22" by (simp add: DESIRED_DETECTOR_TYPES_def)
next
  show "parse_trufflehog_results
     (Some [Parsed (JObj [(''DetectorType'', JInt 2), (''Raw'', JStr ''AKIA_real_key_value'')])]) =
     Inr [JObj [(''SourceMetadata'', JNull), (''DetectorName'', JNull),
                (''DetectorType'', JInt 2), (''Raw'', JStr ''AKIA_real_key_value'')]]"
    by (simp add: parse_trufflehog_results_def py_get_def project_def lower_def lower_char_def
        DESIRED_DETECTOR_TYPES_def UNDESIRED_TERMS_def)
next
  show "parse_trufflehog_results
     (Some [Parsed (JObj [(''DetectorType'', JInt 2), (''Raw'', JStr ''test-AKIA-example'')])]) =
     Inr []"
    by (simp add: parse_trufflehog_results_def py_get_def project_def lower_def lower_char_def
        DESIRED_DETECTOR_TYPES_def UNDESIRED_TERMS_def)
next
  fix obj
  assume "map_of obj ''DetectorType'' = Some (JInt 9999)"
  then show "parse_trufflehog_results (Some [Parsed (JObj obj)]) = Inr []"
    by (simp add: parse_trufflehog_results_def py_get_def DESIRED_DETECTOR_TYPES_def)
qed

theorem filter_retains_iff_witness:
  "list_all th_record (read_lines
        [Parsed (JObj [(''DetectorType'', JInt 17), (''Raw'', JStr ''ghp_0123456789'')]),
         Unparsable,
         Parsed (JObj [(''DetectorType'', JInt 17), (''Raw'', JStr ''Sample-Key'')]),
         Blank,
         Parsed (JObj [(''DetectorType'', JInt 1), (''Raw'', JStr ''ghp_0123456789'')])]) \<and>
   parse_trufflehog_results
     (Some [Parsed (JObj [(''DetectorType'', JInt 17), (''Raw'', JStr ''ghp_0123456789'')]),
            Unparsable,
            Parsed (JObj [(''DetectorType'', JInt 17), (''Raw'', JStr ''Sample-Key'')]),
            Blank,
            Parsed (JObj [(''DetectorType'', JInt 1), (''Raw'', JStr ''ghp_0123456789'')])]) =
     Inr [JObj [(''SourceMetadata'', JNull), (''DetectorName'', JNull),
                (''DetectorType'', JInt 17), (''Raw'', JStr ''ghp_0123456789'')]] \<and>
   map_of [(''DetectorType'', JInt 9999), (''Raw'', JInt 5)] ''DetectorType'' = Some (JInt 9999) \<and>
   parse_trufflehog_results
     (Some [Parsed (JObj [(''DetectorType'', JInt 9999), (''Raw'', JInt 5)])]) = Inr []"
proof -
  let ?ls = "[Parsed (JObj [(''DetectorType'', JInt 17), (''Raw'', JStr ''ghp_0123456789'')]),
         Unparsable,
         Parsed (JObj [(''DetectorType'', JInt 17), (''Raw'', JStr ''Sample-Key'')]),
         Blank,
         Parsed (JObj [(''DetectorType'', JInt 1), (''Raw'', JStr ''ghp_0123456789'')])]"
  have h: "\<forall>v \<in> set (read_lines ?ls). th_record v"
    by (simp add: th_record_def)
  have r: "map projected (filter spec_retained (read_lines ?ls)) =
      [JObj [(''SourceMetadata'', JNull), (''DetectorName'', JNull),
                (''DetectorType'', JInt 17), (''Raw'', JStr ''ghp_0123456789'')]]"
    by (simp add: spec_retained_def detector_type_def raw_text_def projected_def project_def
        py_get_def lower_def lower_char_def DESIRED_DETECTOR_TYPES_def UNDESIRED_TERMS_def
        sublist_code)
  have k: "map_of [(''DetectorType'', JInt 9999), (''Raw'', JInt 5)] ''DetectorType'' =
      Some (JInt 9999)" by simp
  from filter_retains_iff h r k show ?thesis by (simp add: list_all_iff)
qed

text \<open>
  C10. An allow-listed record whose \<^verbatim>\<open>Raw\<close> is missing or the empty string is kept and
  projected with \<^verbatim>\<open>Raw\<close> the empty string: alone, and at any place in a sequence the
  filter gets through.
\<close>

theorem empty_raw_retained:
  "\<forall>obj. py_in_ints (py_get obj ''DetectorType'' JNull) DESIRED_DETECTOR_TYPES \<and>
      (map_of obj ''Raw'' = None \<or> map_of obj ''Raw'' = Some (JStr '''')) \<longrightarrow>
      py_get obj ''Raw'' (JStr '''') = JStr '''' \<and>
      parse_trufflehog_results (Some [Parsed (JObj obj)]) =
        Inr [JObj [(''SourceMetadata'', py_get obj ''SourceMetadata'' JNull),
                   (''DetectorName'', py_get obj ''DetectorName'' JNull),
                   (''DetectorType'', py_get obj ''DetectorType'' JNull),
                   (''Raw'', JStr '''')]] \<and>
      (\<forall>before after out.
         parse_trufflehog_results (Some (before @ [Parsed (JObj obj)] @ after)) = Inr out \<longrightarrow>
         JObj [(''SourceMetadata'', py_get obj ''SourceMetadata'' JNull),
               (''DetectorName'', py_get obj ''DetectorName'' JNull),
               (''DetectorType'', py_get obj ''DetectorType'' JNull),
               (''Raw'', JStr '''')] \<in> set out)"
proof (intro allI impI, elim conjE)
  fix obj
  assume dt: "py_in_ints (py_get obj ''DetectorType'' JNull) DESIRED_DETECTOR_TYPES"
    and raw: "map_of obj ''Raw'' = None \<or> map_of obj ''Raw'' = Some (JStr '''')"
  let ?p = "JObj [(''SourceMetadata'', py_get obj ''SourceMetadata'' JNull),
               (''DetectorName'', py_get obj ''DetectorName'' JNull),
               (''DetectorType'', py_get obj ''DetectorType'' JNull),
               (''Raw'', JStr '''')]"
  from raw have g: "py_get obj ''Raw'' (JStr '''') = JStr ''''"
    by (auto simp: py_get_def)
  then have p: "project obj = ?p" by (simp add: project_def)
  note step = filter_loop_empty_raw [OF dt raw]
  have one: "parse_trufflehog_results (Some [Parsed (JObj obj)]) = Inr [?p]"
    using step [of "[]" "[]"]
    by (simp add: parse_trufflehog_results_def p del: filter_loop.simps(2))
  have seq: "?p \<in> set out"
    if "parse_trufflehog_results (Some (before @ [Parsed (JObj obj)] @ after)) = Inr out"
    for before after out
  proof -
    from that obtain acc where "filter_loop (JObj obj # read_lines after) acc = Inr out"
      by (auto simp: parse_trufflehog_results_def read_lines_append filter_loop_append
          simp del: filter_loop.simps(2) split: sum.splits)
    then have "filter_loop (read_lines after) (acc @ [?p]) = Inr out"
      by (simp only: step p)
    from filter_loop_extends [OF this] show ?thesis by simp
  qed
  from g one seq show "py_get obj ''Raw'' (JStr '''') = JStr '''' \<and>
      parse_trufflehog_results (Some [Parsed (JObj obj)]) = Inr [?p] \<and>
      (\<forall>before after out.
         parse_trufflehog_results (Some (before @ [Parsed (JObj obj)] @ after)) = Inr out \<longrightarrow>
         ?p \<in> set out)"
    by blast
qed

theorem empty_raw_retained_witness:
  "py_in_ints (py_get [(''DetectorType'', JInt 7), (''DetectorName'', JStr ''Github'')]
       ''DetectorType'' JNull) DESIRED_DETECTOR_TYPES \<and>
   map_of [(''DetectorType'', JInt 7), (''DetectorName'', JStr ''Github'')] ''Raw'' = None \<and>
   parse_trufflehog_results
     (Some [Parsed (JObj [(''DetectorType'', JInt 7), (''DetectorName'', JStr ''Github'')])]) =
     Inr [JObj [(''SourceMetadata'', JNull), (''DetectorName'', JStr ''Github''),
                (''DetectorType'', JInt 7), (''Raw'', JStr '''')]]"
proof -
  let ?obj = "[(''DetectorType'', JInt 7), (''DetectorName'', JStr ''Github'')]"
  have dt: "py_in_ints (py_get ?obj ''DetectorType'' JNull) DESIRED_DETECTOR_TYPES"
    by (simp add: py_get_def DESIRED_DETECTOR_TYPES_def)
  have raw: "map_of ?obj ''Raw'' = None" by simp
  from empty_raw_retained [rule_format, of ?obj] dt raw show ?thesis
    by (simp add: py_get_def)
qed

section \<open>Properties of the scheduler\<close>

lemma py_split_nonempty: "py_split sep s \<noteq> []"
  by (induction s) (auto split: list.splits)

lemma py_split_length: "length (py_split sep s) = Suc (length (filter (\<lambda>c. c = sep) s))"
  by (induction s) (auto split: list.splits simp: py_split_nonempty)

lemma py_split_hd: "hd (py_split sep s) = takeWhile (\<lambda>c. c \<noteq> sep) s"
  by (induction s) (auto split: list.splits simp: py_split_nonempty)

lemma py_split_many: "Suc 0 < length (py_split sep s) \<longleftrightarrow> sep \<in> set s"
  by (simp add: py_split_length filter_empty_conv)

lemma registry_qualified_iff:
  "registry_qualified name \<longleftrightarrow>
     CHR ''/'' \<in> set name \<and> CHR ''.'' \<in> set (takeWhile (\<lambda>c. c \<noteq> CHR ''/'') name)"
  by (simp add: registry_qualified_def py_split_many py_split_hd)

text \<open>
  C8, as stated, fails: \<^verbatim>\<open>node.js\<close> holds no \<^verbatim>\<open>:\<close> and its first path segment, the whole
  string, holds a dot, yet in mode \<^verbatim>\<open>mixed\<close> it is not taken as an image name but handed
  to the search.
\<close>

theorem mixed_mode_counterexample:
  "CHR ''.'' \<in> set (hd (py_split CHR ''/'' ''node.js'')) \<and>
   \<not> is_image ''node.js'' \<and>
   searches [''node.js''] ''mixed'' = [Search ''node.js''] \<and>
   gather sample_env [''node.js''] ''mixed'' = [''library/node'']"
  by (simp add: is_image_def registry_qualified_def gather_def searches_def search_def
      sample_env_def)

text \<open>
  C8, amended. In mode \<^verbatim>\<open>mixed\<close> an input is a literal image name if and only if it holds
  a \<^verbatim>\<open>:\<close>, or it holds a \<^verbatim>\<open>/\<close> and the text before its first \<^verbatim>\<open>/\<close> holds a dot. Every
  other input is handed to the search, and the names gathered are the literal names and the
  search results, in input order.
\<close>

theorem mixed_mode_literal_iff:
  "(is_image term \<longleftrightarrow>
      CHR '':'' \<in> set term \<or>
      (CHR ''/'' \<in> set term \<and> CHR ''.'' \<in> set (takeWhile (\<lambda>c. c \<noteq> CHR ''/'') term))) \<and>
   gather e inputs ''mixed'' =
     concat (map (\<lambda>term. if is_image term then [term] else search e term) inputs) \<and>
   searches inputs ''mixed'' = map Search (filter (\<lambda>term. \<not> is_image term) inputs)"
  by (simp add: is_image_def registry_qualified_iff gather_def searches_def)

theorem mixed_mode_literal_iff_witness:
  "is_image ''quay.io/coreos/etcd'' \<and>
   gather sample_env [''quay.io/coreos/etcd'', ''nginx'', ''ubuntu:latest''] ''mixed'' =
     [''quay.io/coreos/etcd'', ''library/nginx'', ''ubuntu:latest''] \<and>
   searches [''quay.io/coreos/etcd'', ''nginx'', ''ubuntu:latest''] ''mixed'' = [Search ''nginx'']"
  using mixed_mode_literal_iff
    [of "''quay.io/coreos/etcd''" sample_env "[''quay.io/coreos/etcd'', ''nginx'', ''ubuntu:latest'']"]
  by (simp add: is_image_def registry_qualified_def search_def sample_env_def)

lemma emit_events: "events (emit evs w) = events w @ evs"
  by (simp add: emit_def)

lemma emit_files: "files (emit evs w) = files w"
  by (simp add: emit_def)

lemma submitted_append: "submitted (xs @ ys) = submitted xs @ submitted ys"
  by (simp add: submitted_def)

lemma submitted_searches: "submitted (map Search xs) = []"
  by (induction xs) (simp_all add: submitted_def)

lemma resolve_tag_submitted: "submitted (snd (resolve_tag e n)) = []"
  by (simp add: resolve_tag_def submitted_def split: option.splits)

lemma scan_and_persist_submitted:
  "submitted (events (snd (scan_and_persist e n info t fs w))) = submitted (events w)"
  by (simp add: scan_and_persist_def Let_def emit_events submitted_append
      split: sum.splits) (simp add: submitted_def)

lemma process_image_submitted:
  "submitted (events (snd (process_image e img w))) = submitted (events w)"
  using resolve_tag_submitted [of e img]
  by (simp add: process_image_def Let_def emit_events submitted_append scan_and_persist_submitted
      split: prod.splits sum.splits option.splits) (simp add: submitted_def)

lemma run_tasks_submitted:
  "submitted (events (run_tasks e imgs w)) = submitted (events w) @ imgs"
proof (induction imgs arbitrary: w)
  case Nil
  then show ?case by simp
next
  case (Cons img imgs)
  obtain r w' where p: "process_image e img (emit [Submit img] w) = (r, w')"
    by (cases "process_image e img (emit [Submit img] w)")
  have "submitted (events w') = submitted (events w) @ [img]"
    using process_image_submitted [of e img "emit [Submit img] w"]
    by (simp add: p emit_events submitted_append) (simp add: submitted_def)
  then show ?case
    by (cases r) (simp_all add: p Cons.IH emit_events submitted_append, simp_all add: submitted_def)
qed

lemma distinct_count_list:
  "distinct xs \<Longrightarrow> count_list xs x = (if x \<in> set xs then 1 else 0)"
  by (induction xs) auto

lemma inspected_append: "inspected (xs @ ys) = inspected xs @ inspected ys"
  by (simp add: inspected_def)

lemma inspected_Nil: "inspected [] = []"
  by (simp add: inspected_def)

lemma inspected_Cons:
  "inspected (ev # evs) = (case ev of Inspect_image name \<Rightarrow> [name] | _ \<Rightarrow> []) @ inspected evs"
  by (simp add: inspected_def)

lemma inspected_searches: "inspected (map Search xs) = []"
  by (induction xs) (simp_all add: inspected_def)

lemma resolve_tag_inspected: "inspected (snd (resolve_tag e n)) = []"
  by (simp add: resolve_tag_def inspected_def split: option.splits)

lemma scan_and_persist_inspected:
  "inspected (events (snd (scan_and_persist e n info t fs w))) = inspected (events w)"
  by (simp add: scan_and_persist_def Let_def emit_events inspected_append
      split: sum.splits) (simp add: inspected_def)

lemma process_image_inspected:
  "inspected (events (snd (process_image e img w))) =
     inspected (events w) @ [fst (resolve_tag e img)]"
proof -
  obtain name lookup where r: "resolve_tag e img = (name, lookup)"
    by (cases "resolve_tag e img")
  have l: "inspected lookup = []" using resolve_tag_inspected [of e img] by (simp add: r)
  show ?thesis
    by (simp add: process_image_def r Let_def emit_events inspected_append
        scan_and_persist_inspected l inspected_Nil inspected_Cons split: sum.splits option.splits)
qed

lemma run_tasks_inspected:
  "inspected (events (run_tasks e imgs w)) =
     inspected (events w) @ map (\<lambda>img. fst (resolve_tag e img)) imgs"
proof (induction imgs arbitrary: w)
  case Nil
  then show ?case by simp
next
  case (Cons img imgs)
  obtain r w' where p: "process_image e img (emit [Submit img] w) = (r, w')"
    by (cases "process_image e img (emit [Submit img] w)")
  have s: "inspected [Submit img] = []" by (simp add: inspected_def)
  have x: "inspected [Log_exception img exc] = []" for exc by (simp add: inspected_def)
  have "inspected (events w') = inspected (events w) @ [fst (resolve_tag e img)]"
    using process_image_inspected [of e img "emit [Submit img] w"]
    by (simp add: p emit_events inspected_append s)
  then show ?case
    by (cases r) (simp_all add: p Cons.IH emit_events inspected_append x)
qed

text \<open>
  C7. Whatever the inputs and the mode, the pool is handed the names gathered from the
  inputs with duplicates removed, and one pipeline runs for each of them: the references
  inspected during the run are the tag-resolved forms of those names, one for one and in
  order, so their number is the number of different gathered names. No name is submitted
  twice and every gathered name is submitted once, however often the inputs or the search
  results repeat it.
\<close>

theorem each_image_once:
  "submitted (events (run e inputs mode \<lparr>events = [], files = fs\<rparr>)) = image_names e inputs mode \<and>
   inspected (events (run e inputs mode \<lparr>events = [], files = fs\<rparr>)) =
     map (\<lambda>img. fst (resolve_tag e img)) (image_names e inputs mode) \<and>
   length (inspected (events (run e inputs mode \<lparr>events = [], files = fs\<rparr>))) =
     card (set (gather e inputs mode)) \<and>
   distinct (image_names e inputs mode) \<and>
   set (image_names e inputs mode) = set (gather e inputs mode) \<and>
   count_list (submitted (events (run e inputs mode \<lparr>events = [], files = fs\<rparr>))) img =
     (if img \<in> set (gather e inputs mode) then 1 else 0)"
proof -
  have s: "submitted (searches inputs mode) = []"
    using submitted_searches [of "[]"] by (simp add: searches_def submitted_searches)
  have t: "inspected (searches inputs mode) = []"
    using inspected_searches [of "[]"] by (simp add: searches_def inspected_searches)
  have e0: "inspected [] = []" by (simp add: inspected_def)
  have a: "submitted (events (run e inputs mode \<lparr>events = [], files = fs\<rparr>)) =
      image_names e inputs mode"
    by (simp add: run_def run_tasks_submitted emit_events s)
  have b: "inspected (events (run e inputs mode \<lparr>events = [], files = fs\<rparr>)) =
      map (\<lambda>img. fst (resolve_tag e img)) (image_names e inputs mode)"
    by (simp add: run_def run_tasks_inspected emit_events t e0)
  have d: "distinct (image_names e inputs mode)" by (simp add: image_names_def)
  have m: "set (image_names e inputs mode) = set (gather e inputs mode)"
    by (simp add: image_names_def)
  have n: "length (image_names e inputs mode) = card (set (gather e inputs mode))"
    by (simp add: image_names_def length_remdups_card_conv)
  have c: "count_list (image_names e inputs mode) img =
      (if img \<in> set (gather e inputs mode) then 1 else 0)"
    using distinct_count_list [OF d, of img] m by simp
  from a b d m n c show ?thesis by simp
qed

theorem each_image_once_witness:
  "gather sample_env [''nginx'', ''web'', ''nginx''] ''search'' =
     [''library/nginx'', ''library/nginx'', ''acme/web'', ''library/nginx''] \<and>
   submitted (events (run sample_env [''nginx'', ''web'', ''nginx''] ''search''
     \<lparr>events = [], files = Map.empty\<rparr>)) = [''acme/web'', ''library/nginx''] \<and>
   inspected (events (run sample_env [''nginx'', ''web'', ''nginx''] ''search''
     \<lparr>events = [], files = Map.empty\<rparr>)) = [''acme/web:latest'', ''library/nginx:latest''] \<and>
   count_list (submitted (events (run sample_env [''nginx'', ''web'', ''nginx''] ''search''
     \<lparr>events = [], files = Map.empty\<rparr>))) ''library/nginx'' = 1"
proof -
  have g: "gather sample_env [''nginx'', ''web'', ''nginx''] ''search'' =
     [''library/nginx'', ''library/nginx'', ''acme/web'', ''library/nginx'']"
    by (simp add: gather_def search_def sample_env_def)
  have n: "image_names sample_env [''nginx'', ''web'', ''nginx''] ''search'' =
     [''acme/web'', ''library/nginx'']"
    by (simp add: image_names_def g)
  have r1: "fst (resolve_tag sample_env ''acme/web'') = ''acme/web:latest''"
    by (simp add: resolve_tag_def registry_qualified_def get_best_tag_def sample_env_def)
  have r2: "fst (resolve_tag sample_env ''library/nginx'') = ''library/nginx:latest''"
    by (simp add: resolve_tag_def registry_qualified_def get_best_tag_def sample_env_def)
  from each_image_once [of sample_env "[''nginx'', ''web'', ''nginx'']" "''search''" Map.empty
      "''library/nginx''"]
  show ?thesis by (simp add: g n r1 r2)
qed

section \<open>Properties of the artifact name\<close>

lemma py_replace_char:
  "py_replace [c] [d] s = map (\<lambda>x. if x = c then d else x) s"
proof (induction s)
  case Nil
  show ?case by (subst py_replace.simps) simp
next
  case (Cons a s)
  show ?case by (subst py_replace.simps) (use Cons.IH in auto)
qed

lemma safe_name_map:
  "safe_name name = map (\<lambda>x. if x = CHR ''/'' \<or> x = CHR '':'' then CHR ''_'' else x) name"
  by (simp add: safe_name_def py_replace_char)

lemma os_path_join_relative:
  "os_path_join d (CHR ''r'' # x) = os_path_join d (CHR ''r'' # y) \<longleftrightarrow> x = y"
  by (simp add: os_path_join_def)

lemma output_file_eq: "output_file e a = output_file e b \<longleftrightarrow> safe_name a = safe_name b"
  by (simp add: output_file_def os_path_join_relative)

lemma map_eq_list_all2: "map f a = map f b \<longleftrightarrow> list_all2 (\<lambda>x y. f x = f y) a b"
proof (induction a arbitrary: b)
  case Nil
  show ?case by (cases b) simp_all
next
  case (Cons x a)
  show ?case by (cases b) (simp_all add: Cons.IH)
qed

lemma san_eq:
  "((if x = CHR ''/'' \<or> x = CHR '':'' then CHR ''_'' else x) =
    (if y = CHR ''/'' \<or> y = CHR '':'' then CHR ''_'' else y)) \<longleftrightarrow>
   (x = y \<or> (x \<in> {CHR ''/'', CHR '':'', CHR ''_''} \<and> y \<in> {CHR ''/'', CHR '':'', CHR ''_''}))"
  by auto

lemma safe_name_eq:
  "safe_name a = safe_name b \<longleftrightarrow>
     list_all2 (\<lambda>x y. x = y \<or>
          (x \<in> {CHR ''/'', CHR '':'', CHR ''_''} \<and> y \<in> {CHR ''/'', CHR '':'', CHR ''_''})) a b"
  unfolding safe_name_map map_eq_list_all2 san_eq ..

lemma process_image_artifact:
  assumes "process_image e img w = (Inr (Some path), w')"
  shows "path = output_file e (fst (resolve_tag e img)) \<and>
         dom (files w') = insert path (dom (files w))"
  using assms
  by (auto simp: process_image_def scan_and_persist_def Let_def emit_def
      split: prod.splits sum.splits option.splits if_splits)

text \<open>
  C9, as stated, fails: \<^verbatim>\<open>a/b:1\<close> and \<^verbatim>\<open>a_b:1\<close> are two different names, both kept by
  the scheduler in mode \<^verbatim>\<open>image\<close> and both left as they are by the tag resolution, and
  their artifacts have one and the same path, at which both pipelines write.
\<close>

theorem artifact_path_counterexample:
  "''a/b:1'' \<noteq> ''a_b:1'' \<and>
   image_names sample_env [''a/b:1'', ''a_b:1''] ''image'' = [''a/b:1'', ''a_b:1''] \<and>
   distinct (image_names sample_env [''a/b:1'', ''a_b:1''] ''image'') \<and>
   resolve_tag sample_env ''a/b:1'' = (''a/b:1'', []) \<and>
   resolve_tag sample_env ''a_b:1'' = (''a_b:1'', []) \<and>
   output_file sample_env ''a/b:1'' = ''/app/output/results_a_b_1.json'' \<and>
   output_file sample_env ''a_b:1'' = ''/app/output/results_a_b_1.json'' \<and>
   fst (process_image sample_env ''a/b:1'' empty_world) =
     Inr (Some ''/app/output/results_a_b_1.json'') \<and>
   fst (process_image sample_env ''a_b:1'' empty_world) =
     Inr (Some ''/app/output/results_a_b_1.json'')"
  by (simp add: image_names_def gather_def resolve_tag_def output_file_def safe_name_map
      os_path_join_def sample_env_def OUTPUT_DIR_def process_image_def scan_and_persist_def
      image_info_def parse_trufflehog_results_def Let_def)

text \<open>
  C9, amended. The artifact of an image reference lies in the output directory under the
  reference with every \<^verbatim>\<open>/\<close> and \<^verbatim>\<open>:\<close> replaced by \<^verbatim>\<open>_\<close>. Two references get the same path
  if and only if they have the same length and, wherever they differ, both hold one of
  \<^verbatim>\<open>/\<close>, \<^verbatim>\<open>:\<close> and \<^verbatim>\<open>_\<close>; all other pairs of references get different paths. A pipeline
  that returns a path has written at the path of its tag-resolved reference and nowhere
  else.
\<close>

theorem artifact_path_eq_iff:
  "safe_name a = map (\<lambda>x. if x = CHR ''/'' \<or> x = CHR '':'' then CHR ''_'' else x) a \<and>
   (output_file e a = output_file e b \<longleftrightarrow> safe_name a = safe_name b) \<and>
   (safe_name a = safe_name b \<longleftrightarrow>
      list_all2 (\<lambda>x y. x = y \<or>
          (x \<in> {CHR ''/'', CHR '':'', CHR ''_''} \<and> y \<in> {CHR ''/'', CHR '':'', CHR ''_''})) a b) \<and>
   (process_image e img w = (Inr (Some path), w') \<longrightarrow>
      path = output_file e (fst (resolve_tag e img)) \<and>
      dom (files w') = insert path (dom (files w)))"
  using safe_name_map [of a] output_file_eq [of e a b] safe_name_eq [of a b]
    process_image_artifact [of e img w path w']
  by blast

theorem artifact_path_eq_iff_witness:
  "safe_name ''quay.io/coreos/etcd:v3'' = ''quay.io_coreos_etcd_v3'' \<and>
   output_file sample_env ''library/nginx:1'' \<noteq> output_file sample_env ''library/nginx:2'' \<and>
   output_file sample_env ''a/b:1'' = output_file sample_env ''a_b:1'' \<and>
   fst (process_image sample_env ''a/b:1'' empty_world) =
     Inr (Some ''/app/output/results_a_b_1.json'') \<and>
   dom (files (snd (process_image sample_env ''a/b:1'' empty_world))) =
     {''/app/output/results_a_b_1.json''}"
proof -
  have 1: "safe_name ''quay.io/coreos/etcd:v3'' = ''quay.io_coreos_etcd_v3''"
    using artifact_path_eq_iff [of "''quay.io/coreos/etcd:v3''" sample_env "[]"] by simp
  have n1: "safe_name ''library/nginx:1'' = ''library_nginx_1''" by (simp add: safe_name_map)
  have n2: "safe_name ''library/nginx:2'' = ''library_nginx_2''" by (simp add: safe_name_map)
  have a: "safe_name ''a/b:1'' = ''a_b_1''" by (simp add: safe_name_map)
  have b: "safe_name ''a_b:1'' = ''a_b_1''" by (simp add: safe_name_map)
  have 2: "output_file sample_env ''library/nginx:1'' \<noteq> output_file sample_env ''library/nginx:2''"
    using artifact_path_eq_iff [of "''library/nginx:1''" sample_env "''library/nginx:2''"]
    by (simp only: n1 n2) simp
  have 3: "output_file sample_env ''a/b:1'' = output_file sample_env ''a_b:1''"
    using artifact_path_eq_iff [of "''a/b:1''" sample_env "''a_b:1''"]
    by (simp only: a b)
  have 4: "fst (process_image sample_env ''a/b:1'' empty_world) =
      Inr (Some ''/app/output/results_a_b_1.json'')"
    by (simp add: resolve_tag_def output_file_def safe_name_map os_path_join_def sample_env_def
        OUTPUT_DIR_def process_image_def scan_and_persist_def image_info_def
        parse_trufflehog_results_def Let_def)
  have 5: "process_image sample_env ''a/b:1'' empty_world =
      (Inr (Some ''/app/output/results_a_b_1.json''),
       snd (process_image sample_env ''a/b:1'' empty_world))"
    by (rule prod_eqI) (simp_all only: fst_conv snd_conv 4)
  note t = artifact_path_eq_iff [of "[]" sample_env "[]" "''a/b:1''" empty_world
      "''/app/output/results_a_b_1.json''" "snd (process_image sample_env ''a/b:1'' empty_world)",
      THEN conjunct2, THEN conjunct2, THEN conjunct2, THEN mp, OF 5]
  have 6: "dom (files (snd (process_image sample_env ''a/b:1'' empty_world))) =
      {''/app/output/results_a_b_1.json''}"
    using t [THEN conjunct2] by (simp add: empty_world_def)
  from 1 2 3 4 6 show ?thesis by simp
qed

section \<open>Properties of the tag resolution\<close>






section \<open>Properties of the pipeline of one image\<close>

text \<open>
  A pipeline reads nothing of the world it runs in: what it returns, the events it adds and
  the files it writes are those of a run in the empty world.
\<close>

lemma scan_and_persist_world:
  "scan_and_persist e n info t fs w =
     (fst (scan_and_persist e n info t fs empty_world),
      w\<lparr>events := events w @ events (snd (scan_and_persist e n info t fs empty_world)),
        files := files w ++ files (snd (scan_and_persist e n info t fs empty_world))\<rparr>)"
  by (simp add: scan_and_persist_def Let_def emit_def empty_world_def split: sum.splits)

lemma process_image_world:
  "process_image e img w =
     (fst (process_image e img empty_world),
      w\<lparr>events := events w @ events (snd (process_image e img empty_world)),
        files := files w ++ files (snd (process_image e img empty_world))\<rparr>)"
proof -
  obtain name lookup where r: "resolve_tag e img = (name, lookup)"
    by (cases "resolve_tag e img")
  show ?thesis
  proof (cases "image_info (inspect_reply e name)")
    case (Inl err)
    then show ?thesis by (simp add: process_image_def r Let_def emit_def empty_world_def)
  next
    case (Inr info)
    show ?thesis
    proof (cases "pull_reply e name (os_path_join (mkdtemp e name) ''image_data'')")
      case None
      then show ?thesis by (simp add: process_image_def r Inr Let_def emit_def empty_world_def)
    next
      case (Some fs)
      have a: "process_image e img v =
          scan_and_persist e name info (mkdtemp e name) fs
            (emit [Pull_image name (os_path_join (mkdtemp e name) ''image_data'')]
               (emit (lookup @ [Inspect_image name]) v))" for v
        by (simp add: process_image_def r Inr Some Let_def)
      define R where "R = fst (scan_and_persist e name info (mkdtemp e name) fs empty_world)"
      define E where "E = events (snd (scan_and_persist e name info (mkdtemp e name) fs empty_world))"
      define F where "F = files (snd (scan_and_persist e name info (mkdtemp e name) fs empty_world))"
      have g: "scan_and_persist e name info (mkdtemp e name) fs v =
          (R, v\<lparr>events := events v @ E, files := files v ++ F\<rparr>)" for v
        unfolding R_def E_def F_def by (rule scan_and_persist_world)
      show ?thesis by (simp add: a g emit_def empty_world_def)
    qed
  qed
qed


lemma run_tasks_world:
  "run_tasks e imgs w =
     w\<lparr>events := events w @ events (run_tasks e imgs empty_world),
       files := files w ++ files (run_tasks e imgs empty_world)\<rparr>"
proof (induction imgs arbitrary: w)
  case Nil
  show ?case by (simp add: empty_world_def)
next
  case (Cons img imgs)
  define R where "R = fst (process_image e img empty_world)"
  define E where "E = events (snd (process_image e img empty_world))"
  define F where "F = files (snd (process_image e img empty_world))"
  have g: "process_image e img v = (R, v\<lparr>events := events v @ E, files := files v ++ F\<rparr>)" for v
    unfolding R_def E_def F_def by (rule process_image_world)
  define T where "T = events (run_tasks e imgs empty_world)"
  define G where "G = files (run_tasks e imgs empty_world)"
  have h: "run_tasks e imgs v = v\<lparr>events := events v @ T, files := files v ++ G\<rparr>" for v
    unfolding T_def G_def by (rule Cons.IH)
  show ?case
    by (cases R) (simp_all add: g h emit_def empty_world_def)
qed


lemma run_tasks_append: "run_tasks e (xs @ ys) w = run_tasks e ys (run_tasks e xs w)"
proof (induction xs arbitrary: w)
  case Nil
  show ?case by simp
next
  case (Cons x xs)
  obtain r w' where p: "process_image e x (emit [Submit x] w) = (r, w')"
    by (cases "process_image e x (emit [Submit x] w)")
  show ?case by (cases r) (simp_all add: p Cons.IH)
qed

lemma run_tasks_events:
  "events (run_tasks e imgs w) = events w @ events (run_tasks e imgs empty_world)"
  by (subst run_tasks_world) simp

lemma run_tasks_files:
  "files (run_tasks e imgs w) = files w ++ files (run_tasks e imgs empty_world)"
  by (subst run_tasks_world) simp

lemma resolve_tag_lookup: "list_all (\<lambda>ev. \<not> later_stage ev) (snd (resolve_tag e n))"
  by (simp add: resolve_tag_def split: option.splits)

text \<open>
  C3. When the pull is reached (the name is resolved and the metadata block has not
  raised) and reports failure, \<^verbatim>\<open>process_image\<close> returns \<^verbatim>\<open>None\<close> with the pull as its
  last event: no file is written and no stage after the pull runs. In a run the other
  images are not affected: the events of the images after it are those of running them
  alone, and the files at the end are those of the run without the failed image.
\<close>

theorem pull_failure_aborts:
  assumes r: "resolve_tag e image_name0 = (image_name, lookup)"
    and i: "image_info (inspect_reply e image_name) = Inr info"
    and d: "image_dir = os_path_join (mkdtemp e image_name) ''image_data''"
    and p: "pull_reply e image_name image_dir = None"
  shows "process_image e image_name0 w =
      (Inr None, emit (lookup @ [Inspect_image image_name, Pull_image image_name image_dir]) w) \<and>
    files (snd (process_image e image_name0 w)) = files w \<and>
    list_all (\<lambda>ev. \<not> later_stage ev)
      (drop (length (events w)) (events (snd (process_image e image_name0 w)))) \<and>
    events (run_tasks e (before @ image_name0 # rest) w) =
      events (run_tasks e before w) @
      [Submit image_name0] @ lookup @ [Inspect_image image_name, Pull_image image_name image_dir] @
      events (run_tasks e rest empty_world) \<and>
    events (run_tasks e (before @ rest) w) =
      events (run_tasks e before w) @ events (run_tasks e rest empty_world) \<and>
    files (run_tasks e (before @ image_name0 # rest) w) = files (run_tasks e (before @ rest) w)"
proof -
  have a: "process_image e image_name0 v =
      (Inr None, emit (lookup @ [Inspect_image image_name, Pull_image image_name image_dir]) v)" for v
    using p by (simp add: process_image_def r i d Let_def emit_def)
  have l: "list_all (\<lambda>ev. \<not> later_stage ev) lookup"
    using resolve_tag_lookup [of e image_name0] by (simp add: r)
  have b: "list_all (\<lambda>ev. \<not> later_stage ev)
      (drop (length (events w)) (events (snd (process_image e image_name0 w))))"
    by (simp add: a emit_events l)
  have s: "run_tasks e (image_name0 # rest) v =
      run_tasks e rest
        (emit (lookup @ [Inspect_image image_name, Pull_image image_name image_dir])
           (emit [Submit image_name0] v))" for v
    by (simp add: a)
  have c: "events (run_tasks e (before @ image_name0 # rest) w) =
      events (run_tasks e before w) @
      [Submit image_name0] @ lookup @ [Inspect_image image_name, Pull_image image_name image_dir] @
      events (run_tasks e rest empty_world)"
    by (simp only: run_tasks_append [of e before] s)
       (subst run_tasks_events, simp add: emit_events)
  have c': "events (run_tasks e (before @ rest) w) =
      events (run_tasks e before w) @ events (run_tasks e rest empty_world)"
    by (simp only: run_tasks_append [of e before]) (subst run_tasks_events, simp)
  have f: "files (run_tasks e (before @ image_name0 # rest) w) =
      files (run_tasks e (before @ rest) w)"
    by (simp only: run_tasks_append [of e before] s)
       (subst run_tasks_files, subst (2) run_tasks_files, simp add: emit_files)
  from a [of w] b c c' f show ?thesis by (simp add: emit_files)
qed

theorem pull_failure_aborts_witness:
  "resolve_tag sample_env ''broken:1'' = (''broken:1'', []) \<and>
   image_info (inspect_reply sample_env ''broken:1'') = Inr (JObj []) \<and>
   pull_reply sample_env ''broken:1'' ''/tmp/tmp0/image_data'' = None \<and>
   process_image sample_env ''broken:1'' empty_world =
     (Inr None,
      \<lparr>events = [Inspect_image ''broken:1'', Pull_image ''broken:1'' ''/tmp/tmp0/image_data''],
       files = Map.empty\<rparr>) \<and>
   files (run_tasks sample_env [''ok:1'', ''broken:1'', ''ok:2''] empty_world) =
     files (run_tasks sample_env [''ok:1'', ''ok:2''] empty_world)"
proof -
  have r: "resolve_tag sample_env ''broken:1'' = (''broken:1'', [])"
    by (simp add: resolve_tag_def)
  have i: "image_info (inspect_reply sample_env ''broken:1'') = Inr (JObj [])"
    by (simp add: image_info_def sample_env_def)
  have d: "''/tmp/tmp0/image_data'' = os_path_join (mkdtemp sample_env ''broken:1'') ''image_data''"
    by (simp add: os_path_join_def sample_env_def)
  have p: "pull_reply sample_env ''broken:1'' ''/tmp/tmp0/image_data'' = None"
    by (simp add: sample_env_def)
  from pull_failure_aborts [OF r i d p, of empty_world "[''ok:1'']" "[''ok:2'']"] r i p
  show ?thesis by (simp add: emit_def empty_world_def)
qed




section \<open>Properties of the extractor\<close>

lemma manifest_files_absent:
  "\<not> path_exists fs (os_path_join image_dir ''manifest.json'') \<Longrightarrow> manifest_files fs image_dir = []"
  by (simp add: manifest_files_def Let_def)

lemma manifest_files_unparsable:
  "load_json fs (os_path_join image_dir ''manifest.json'') = None \<Longrightarrow> manifest_files fs image_dir = []"
  by (simp add: manifest_files_def Let_def)

text \<open>
  C4. When the manifest is absent, cannot be parsed, or yields no file, the files handed to
  \<^verbatim>\<open>tar\<close> are exactly the entries of the pulled directory other than \<^verbatim>\<open>manifest.json\<close> and
  \<^verbatim>\<open>version\<close>, in the order of the listing; on an empty directory nothing is extracted.
\<close>

theorem manifest_fallback:
  assumes "\<not> path_exists fs (os_path_join image_dir ''manifest.json'') \<or>
           load_json fs (os_path_join image_dir ''manifest.json'') = None \<or>
           manifest_files fs image_dir = []"
  shows "files_to_extract fs image_dir =
           filter (\<lambda>f. f \<noteq> ''manifest.json'' \<and> f \<noteq> ''version'') (listdir fs image_dir) \<and>
         extract_image fs image_dir extract_root =
           map (os_path_join image_dir)
             (filter (\<lambda>f. f \<noteq> ''manifest.json'' \<and> f \<noteq> ''version'') (listdir fs image_dir)) \<and>
         (listdir fs image_dir = [] \<longrightarrow> extract_image fs image_dir extract_root = [])"
proof -
  from assms have m: "manifest_files fs image_dir = []"
    using manifest_files_absent [of fs image_dir] manifest_files_unparsable [of fs image_dir]
    by blast
  have f: "files_to_extract fs image_dir =
      filter (\<lambda>f. f \<noteq> ''manifest.json'' \<and> f \<noteq> ''version'') (listdir fs image_dir)"
    by (simp add: files_to_extract_def m)
  show ?thesis by (simp add: extract_image_def f)
qed

theorem manifest_fallback_witness:
  "\<not> path_exists (sample_fs\<lparr>listdir := \<lambda>d. [''manifest.json'', ''0a1b'', ''version'', ''2c3d'']\<rparr>)
       (os_path_join ''/tmp/tmp0/image_data'' ''manifest.json'') \<and>
   extract_image (sample_fs\<lparr>listdir := \<lambda>d. [''manifest.json'', ''0a1b'', ''version'', ''2c3d'']\<rparr>)
       ''/tmp/tmp0/image_data'' ''/tmp/tmp0/extracted'' =
     [''/tmp/tmp0/image_data/0a1b'', ''/tmp/tmp0/image_data/2c3d''] \<and>
   load_json (sample_fs\<lparr>path_exists := \<lambda>p. True, listdir := \<lambda>d. [''manifest.json'', ''0a1b'']\<rparr>)
       (os_path_join ''/tmp/tmp0/image_data'' ''manifest.json'') = None \<and>
   extract_image (sample_fs\<lparr>path_exists := \<lambda>p. True, listdir := \<lambda>d. [''manifest.json'', ''0a1b'']\<rparr>)
       ''/tmp/tmp0/image_data'' ''/tmp/tmp0/extracted'' = [''/tmp/tmp0/image_data/0a1b''] \<and>
   listdir sample_fs ''/tmp/tmp0/image_data'' = [] \<and>
   extract_image sample_fs ''/tmp/tmp0/image_data'' ''/tmp/tmp0/extracted'' = []"
proof -
  have a: "\<not> path_exists (sample_fs\<lparr>listdir := \<lambda>d. [''manifest.json'', ''0a1b'', ''version'', ''2c3d'']\<rparr>)
       (os_path_join ''/tmp/tmp0/image_data'' ''manifest.json'')"
    by (simp add: sample_fs_def)
  have b: "load_json (sample_fs\<lparr>path_exists := \<lambda>p. True, listdir := \<lambda>d. [''manifest.json'', ''0a1b'']\<rparr>)
       (os_path_join ''/tmp/tmp0/image_data'' ''manifest.json'') = None"
    by (simp add: sample_fs_def)
  have c: "\<not> path_exists sample_fs (os_path_join ''/tmp/tmp0/image_data'' ''manifest.json'')"
    by (simp add: sample_fs_def)
  have l: "listdir sample_fs ''/tmp/tmp0/image_data'' = []" by (simp add: sample_fs_def)
  from manifest_fallback [of "sample_fs\<lparr>listdir := \<lambda>d. [''manifest.json'', ''0a1b'', ''version'', ''2c3d'']\<rparr>"
        "''/tmp/tmp0/image_data''" "''/tmp/tmp0/extracted''"]
    manifest_fallback [of "sample_fs\<lparr>path_exists := \<lambda>p. True, listdir := \<lambda>d. [''manifest.json'', ''0a1b'']\<rparr>"
        "''/tmp/tmp0/image_data''" "''/tmp/tmp0/extracted''"]
    manifest_fallback [of sample_fs "''/tmp/tmp0/image_data''" "''/tmp/tmp0/extracted''"]
    a b c l
  show ?thesis by (simp add: os_path_join_def)
qed

section \<open>Properties of the shadow rule\<close>

lemma glob_match_literals: "glob_match (map Literal p) s \<longleftrightarrow> s = p"
proof (induction p arbitrary: s)
  case Nil
  show ?case by simp
next
  case (Cons a p)
  show ?case by (cases s) (auto simp: Cons.IH)
qed

lemma translate_shadow: "translate ''shadow'' = map Literal ''shadow''"
  by simp

lemma match_shadow: "match_pattern filename ''shadow'' \<longleftrightarrow> lower filename = ''shadow''"
proof -
  have l: "lower ''shadow'' = ''shadow''" by (simp add: lower_def lower_char_def)
  show ?thesis
    by (simp only: match_pattern_def fnmatch_def l translate_shadow glob_match_literals)
qed

lemma splitlines_from_covers:
  "c \<in> set cur \<union> set s \<Longrightarrow> \<not> line_end c \<Longrightarrow> \<exists>l \<in> set (splitlines_from cur s). c \<in> set l"
proof (induction cur s rule: splitlines_from.induct)
  case (1 cur)
  then show ?case by auto
next
  case (2 cur x)
  then show ?case by auto
next
  case (3 cur x d s)
  show ?case
  proof (cases "x = CHR 0x0D \<and> d = CHR 0x0A")
    case True
    then have le: "line_end x" "line_end d" by (simp_all add: line_end_def)
    from 3(4,5) le have "c \<in> set cur \<or> c \<in> set [] \<union> set s" by auto
    then show ?thesis
    proof
      assume "c \<in> set cur"
      then show ?thesis using True by simp
    next
      assume "c \<in> set [] \<union> set s"
      from 3(1) [OF True this 3(5)] show ?thesis using True by auto
    qed
  next
    case False
    show ?thesis
    proof (cases "line_end x")
      case True
      from 3(4,5) True have "c \<in> set cur \<or> c \<in> set [] \<union> set (d # s)" by auto
      then show ?thesis
      proof
        assume "c \<in> set cur"
        then show ?thesis using True False by simp
      next
        assume "c \<in> set [] \<union> set (d # s)"
        from 3(2) [OF False True this 3(5)] show ?thesis using True False by auto
      qed
    next
      case nl: False
      from 3(4) have "c \<in> set (cur @ [x]) \<union> set (d # s)" by auto
      from 3(3) [OF False nl this 3(5)] show ?thesis using nl False by auto
    qed
  qed
qed

lemma splitlines_dollar:
  "CHR ''$'' \<in> set content \<Longrightarrow> \<exists>line \<in> set (splitlines content). CHR ''$'' \<in> set line"
  using splitlines_from_covers [of "CHR ''$''" "[]" content]
  by (simp add: splitlines_def line_end_def)

lemma check_shadow_found:
  assumes "read_text fs path = Some content" and "CHR ''$'' \<in> set content"
  shows "check_shadow fs path =
           (''Found SHADOW file: '' @ path) #
           map (\<lambda>line. ''Shadow content: '' @ line)
             (filter (\<lambda>line. CHR ''$'' \<in> set line) (splitlines content))"
  using assms by (simp add: check_shadow_def)

text \<open>
  C5, as stated, fails: the path \<^verbatim>\<open>/x/etc/gshadow\<close> matches \<^verbatim>\<open>*shadow*\<close> and the file holds a
  line with a \<^verbatim>\<open>$\<close>, yet the scan of the tree finds nothing.
\<close>

theorem shadow_rule_counterexample:
  "fnmatch ''/x/etc/gshadow'' ''*shadow*'' \<and>
   CHR ''$'' \<in> set ''root:$6$abc:19000:0:99999:7:::'' \<and>
   scan (sample_fs\<lparr>walk := \<lambda>d. [(''/x/etc'', [], [''gshadow''])],
                   read_text := \<lambda>p. Some ''root:$6$abc:19000:0:99999:7:::''\<rparr>) ''/x'' = []"
  by (simp add: fnmatch_def scan_def scan_check_def scan_file_def scan_git_config_def match_pattern_def
      SENSITIVE_FILES_def lower_def lower_char_def bracket_def sample_fs_def)


text \<open>
  C5, amended. The one rule with the shadow action has the pattern \<^verbatim>\<open>shadow\<close>; the scan
  applies it first, to the files of the tree whose name, in lower case, is \<^verbatim>\<open>shadow\<close>, and
  to no other. For such a file,
  content without a \<^verbatim>\<open>$\<close> gives no finding; content with a \<^verbatim>\<open>$\<close> gives the summary
  finding followed by one finding for each line that holds a \<^verbatim>\<open>$\<close>, in file order, and at
  least one of them carries such a line's text.
\<close>

theorem shadow_rule:
  "filter (\<lambda>(title, pattern, action_type). action_type = ''shadow'') SENSITIVE_FILES =
     [(''SHADOW'', ''shadow'', ''shadow'')] \<and>
   scan fs directory =
     concat (map (\<lambda>(root, dirs, files).
                    concat (map (\<lambda>filename. if lower filename = ''shadow''
                                            then check_shadow fs (os_path_join root filename)
                                            else []) files))
               (walk fs directory)) @
     concat (map (scan_check fs directory) (tl SENSITIVE_FILES)) \<and>
   scan_file fs (''SHADOW'', ''shadow'', ''shadow'') root filename =
     (if lower filename = ''shadow'' then check_shadow fs (os_path_join root filename) else []) \<and>
   (read_text fs path = Some content \<and> CHR ''$'' \<notin> set content \<longrightarrow> check_shadow fs path = []) \<and>
   (read_text fs path = Some content \<and> CHR ''$'' \<in> set content \<longrightarrow>
      check_shadow fs path =
        (''Found SHADOW file: '' @ path) #
        map (\<lambda>line. ''Shadow content: '' @ line)
          (filter (\<lambda>line. CHR ''$'' \<in> set line) (splitlines content)) \<and>
      length (check_shadow fs path) =
        Suc (length (filter (\<lambda>line. CHR ''$'' \<in> set line) (splitlines content))) \<and>
      (\<exists>line \<in> set (splitlines content).
         CHR ''$'' \<in> set line \<and> ''Shadow content: '' @ line \<in> set (check_shadow fs path)))"
proof -
  have a: "filter (\<lambda>(title, pattern, action_type). action_type = ''shadow'') SENSITIVE_FILES =
     [(''SHADOW'', ''shadow'', ''shadow'')]"
    by (simp add: SENSITIVE_FILES_def)
  have b: "scan_file fs (''SHADOW'', ''shadow'', ''shadow'') root filename =
     (if lower filename = ''shadow'' then check_shadow fs (os_path_join root filename) else [])"
    by (simp add: scan_file_def match_shadow)
  have c: "check_shadow fs path = []"
    if "read_text fs path = Some content" "CHR ''$'' \<notin> set content"
    using that by (simp add: check_shadow_def)
  have d: "\<exists>line \<in> set (splitlines content).
         CHR ''$'' \<in> set line \<and> ''Shadow content: '' @ line \<in> set (check_shadow fs path)"
    if r: "read_text fs path = Some content" and m: "CHR ''$'' \<in> set content"
  proof -
    from splitlines_dollar [OF m] obtain line
      where l: "line \<in> set (splitlines content)" "CHR ''$'' \<in> set line" by blast
    then have "''Shadow content: '' @ line \<in> set (check_shadow fs path)"
      by (simp only: check_shadow_found [OF r m]) simp
    with l show ?thesis by blast
  qed
  have e: "length (check_shadow fs path) =
        Suc (length (filter (\<lambda>line. CHR ''$'' \<in> set line) (splitlines content)))"
    if r: "read_text fs path = Some content" and m: "CHR ''$'' \<in> set content"
    by (simp only: check_shadow_found [OF r m]) simp
  have h: "SENSITIVE_FILES = (''SHADOW'', ''shadow'', ''shadow'') # tl SENSITIVE_FILES"
    by (simp add: SENSITIVE_FILES_def)
  have b': "scan_file fs (''SHADOW'', ''shadow'', ''shadow'') root' =
      (\<lambda>filename. if lower filename = ''shadow''
                   then check_shadow fs (os_path_join root' filename) else [])" for root'
    by (rule ext) (simp add: scan_file_def match_shadow)
  have k: "scan_check fs directory (''SHADOW'', ''shadow'', ''shadow'') =
      concat (map (\<lambda>(root, dirs, files).
                    concat (map (\<lambda>filename. if lower filename = ''shadow''
                                            then check_shadow fs (os_path_join root filename)
                                            else []) files))
               (walk fs directory))"
    by (simp add: scan_check_def b')
  have g: "scan fs directory =
      scan_check fs directory (''SHADOW'', ''shadow'', ''shadow'') @
      concat (map (scan_check fs directory) (tl SENSITIVE_FILES))"
    unfolding scan_def by (subst h) simp
  from a b c d e check_shadow_found [of fs path content] g [unfolded k] show ?thesis by blast
qed

theorem shadow_rule_witness:
  "lower ''Shadow'' = ''shadow'' \<and>
   scan_file
     (sample_fs\<lparr>read_text := \<lambda>p. Some (''root:$6$abc:19000:0:99999:7:::'' @ [CHR 0x0A] @
                                            ''bin:*:18000:0:99999:7:::'' @ [CHR 0x0A] @
                                            ''eve:$y$j9T$xyz:19100:0:99999:7:::'' @ [CHR 0x0A])\<rparr>)
     (''SHADOW'', ''shadow'', ''shadow'') ''/x/etc'' ''Shadow'' =
     [''Found SHADOW file: /x/etc/Shadow'',
      ''Shadow content: root:$6$abc:19000:0:99999:7:::'',
      ''Shadow content: eve:$y$j9T$xyz:19100:0:99999:7:::''] \<and>
   read_text (sample_fs\<lparr>read_text := \<lambda>p. Some ''root:*:19000:0:99999:7:::''\<rparr>) ''/x/etc/shadow'' =
     Some ''root:*:19000:0:99999:7:::'' \<and>
   CHR ''$'' \<notin> set ''root:*:19000:0:99999:7:::'' \<and>
   check_shadow (sample_fs\<lparr>read_text := \<lambda>p. Some ''root:*:19000:0:99999:7:::''\<rparr>) ''/x/etc/shadow'' = []"
proof -
  define content where
    "content = ''root:$6$abc:19000:0:99999:7:::'' @ [CHR 0x0A] @
               ''bin:*:18000:0:99999:7:::'' @ [CHR 0x0A] @
               ''eve:$y$j9T$xyz:19100:0:99999:7:::'' @ [CHR 0x0A]"
  define fs where "fs = sample_fs\<lparr>read_text := \<lambda>p. Some content\<rparr>"
  have l: "lower ''Shadow'' = ''shadow''" by (simp add: lower_def lower_char_def)
  have r: "read_text fs (os_path_join ''/x/etc'' ''Shadow'') = Some content"
    by (simp add: fs_def)
  have m: "CHR ''$'' \<in> set content" by (simp add: content_def)
  have s: "splitlines content =
      [''root:$6$abc:19000:0:99999:7:::'', ''bin:*:18000:0:99999:7:::'',
       ''eve:$y$j9T$xyz:19100:0:99999:7:::'']"
    by (simp add: content_def splitlines_def line_end_def)
  have j: "os_path_join ''/x/etc'' ''Shadow'' = ''/x/etc/Shadow''"
    by (simp add: os_path_join_def)
  note t1 = shadow_rule [of fs "''/x''" "''/x/etc''" "''Shadow''" "os_path_join ''/x/etc'' ''Shadow''" content]
  have 1: "scan_file fs (''SHADOW'', ''shadow'', ''shadow'') ''/x/etc'' ''Shadow'' =
     [''Found SHADOW file: /x/etc/Shadow'',
      ''Shadow content: root:$6$abc:19000:0:99999:7:::'',
      ''Shadow content: eve:$y$j9T$xyz:19100:0:99999:7:::'']"
    using t1 r m by (simp add: l s j)
  define fs2 where "fs2 = sample_fs\<lparr>read_text := \<lambda>p. Some ''root:*:19000:0:99999:7:::''\<rparr>"
  have r2: "read_text fs2 ''/x/etc/shadow'' = Some ''root:*:19000:0:99999:7:::''"
    by (simp add: fs2_def)
  have m2: "CHR ''$'' \<notin> set ''root:*:19000:0:99999:7:::''" by simp
  note t2 = shadow_rule [of fs2 "''/x''" "''/x/etc''" "''shadow''" "''/x/etc/shadow''" "''root:*:19000:0:99999:7:::''"]
  have 2: "check_shadow fs2 ''/x/etc/shadow'' = []"
    using t2 r2 m2 by blast
  from l 1 r2 m2 2 show ?thesis unfolding fs_def fs2_def content_def by simp
qed

end
